theory Spec2Isabelle
  imports Main "HOL-Library.AList" "HOL-Library.Multiset"
begin

section \<open>XML elements\<close>

text \<open>
  The module works on lxml elements. An element is modelled as a value: its tag, its
  attribute dictionary (an association list, read with \<open>map_of\<close>), its text and the
  list of its child elements in document order. Comments, processing instructions and
  tail text play no part in the functions embedded here and are left out. An element
  tree (the result of parsing) is identified with its root element, so the helper
  \<^verbatim>\<open>root(t)\<close> of the utilities is the identity on this type.
\<close>

datatype element = Element (tag: string) (attrib: "(string \<times> string) list")
  (text_of: string) (children: "element list")

text \<open>\<^verbatim>\<open>e.get(name)\<close>: the attribute value, or \<^verbatim>\<open>None\<close>.\<close>

definition get :: "element \<Rightarrow> string \<Rightarrow> string option" where
  "get e k = map_of (attrib e) k"

text \<open>
  The namespace table \<^verbatim>\<open>NS\<close> comes from the constants module, which is not
  part of the embedded source; it is taken as a parameter. Only the two prefixes used
  by the functions below are kept.
\<close>

record namespaces =
  md :: string
  mdrpi :: string

text \<open>The SAML namespaces, for evaluation.\<close>

definition saml_ns :: namespaces where
  "saml_ns = \<lparr>md = ''urn:oasis:names:tc:SAML:2.0:metadata'',
               mdrpi = ''urn:oasis:names:tc:SAML:metadata:rpi''\<rparr>"

text \<open>\<^verbatim>\<open>"{%s}EntityDescriptor" % NS['md']\<close> and its relatives.\<close>

definition qname :: "string \<Rightarrow> string \<Rightarrow> string" where
  "qname uri local = ''{'' @ uri @ ''}'' @ local"

definition EntityDescriptor :: "namespaces \<Rightarrow> string" where
  "EntityDescriptor NS = qname (md NS) ''EntityDescriptor''"

definition EntitiesDescriptor :: "namespaces \<Rightarrow> string" where
  "EntitiesDescriptor NS = qname (md NS) ''EntitiesDescriptor''"

definition Extensions :: "namespaces \<Rightarrow> string" where
  "Extensions NS = qname (md NS) ''Extensions''"

definition PublicationInfo :: "namespaces \<Rightarrow> string" where
  "PublicationInfo NS = qname (mdrpi NS) ''PublicationInfo''"

text \<open>
  \<^verbatim>\<open>t.iter(tag)\<close>: the element itself and all its descendants, in document order
  (depth first, parents before children), restricted to those carrying the tag.
\<close>

fun iter :: "string \<Rightarrow> element \<Rightarrow> element list" where
  "iter tg (Element t a x cs) =
     (if t = tg then [Element t a x cs] else []) @ concat (map (iter tg) cs)"

section \<open>Enumerating entities\<close>

text \<open>
  \<^verbatim>\<open>
  def iter_entities(t):
      if t is None:
          return []
      return t.iter('{%s}EntityDescriptor' % NS['md'])
  \<close>
  The argument may be \<^verbatim>\<open>None\<close>, so the model takes an optional element.
\<close>

definition iter_entities :: "namespaces \<Rightarrow> element option \<Rightarrow> element list" where
  "iter_entities NS t =
     (case t of None \<Rightarrow> [] | Some e \<Rightarrow> iter (EntityDescriptor NS) e)"

text \<open>
  \<^verbatim>\<open>
  def entities_list(t=None):
      if t is None:
          return []
      elif root(t).tag == "{%s}EntityDescriptor" % NS['md']:
          return [root(t)]
      else:
          return iter_entities(t)
  \<close>
\<close>

definition entities_list :: "namespaces \<Rightarrow> element option \<Rightarrow> element list" where
  "entities_list NS t =
     (case t of
        None \<Rightarrow> []
      | Some e \<Rightarrow> if tag e = EntityDescriptor NS then [e] else iter_entities NS t)"

section \<open>The entity set\<close>

text \<open>
  \<^verbatim>\<open>
  class EntitySet(object):
      def __init__(self, initial=None):
          self._e = dict()
          if initial is not None:
              for e in initial:
                  self.add(e)
      def add(self, value):
          self._e[value.get('entityID')] = value
      def discard(self, value):
          entity_id = value.get('entityID')
          if entity_id in self._e:
              del self._e[entity_id]
      def __iter__(self):
          for e in self._e.values():
              yield e
      def __len__(self):
          return len(self._e.keys())
      def __contains__(self, item):
          return item.get('entityID') in self._e.keys()
  \<close>
  The dictionary \<^verbatim>\<open>_e\<close> is an association list from keys to records. A key is
  the result of \<^verbatim>\<open>value.get('entityID')\<close>, which is \<^verbatim>\<open>None\<close> for a record
  without that attribute, hence \<open>string option\<close>. Assigning to a key that is present
  replaces the value where it stands, assigning to a new key appends
  (\<^const>\<open>AList.update\<close>). The language fixes no iteration order for this dictionary;
  the model iterates in order of first insertion.
\<close>

record EntitySet =
  dict_e :: "(string option \<times> element) list"

definition add :: "EntitySet \<Rightarrow> element \<Rightarrow> EntitySet" where
  "add self v = self\<lparr>dict_e := AList.update (get v ''entityID'') v (dict_e self)\<rparr>"

definition init :: "element list option \<Rightarrow> EntitySet" where
  "init initial =
     (case initial of
        None \<Rightarrow> \<lparr>dict_e = []\<rparr>
      | Some es \<Rightarrow> fold (\<lambda>e self. add self e) es \<lparr>dict_e = []\<rparr>)"

definition discard :: "EntitySet \<Rightarrow> element \<Rightarrow> EntitySet" where
  "discard self v =
     (let entity_id = get v ''entityID'' in
      if entity_id \<in> set (map fst (dict_e self))
      then self\<lparr>dict_e := AList.delete entity_id (dict_e self)\<rparr>
      else self)"

definition iter_set :: "EntitySet \<Rightarrow> element list" where
  "iter_set self = map snd (dict_e self)"

definition len :: "EntitySet \<Rightarrow> nat" where
  "len self = length (map fst (dict_e self))"

definition contains :: "EntitySet \<Rightarrow> element \<Rightarrow> bool" where
  "contains self item \<longleftrightarrow> get item ''entityID'' \<in> set (map fst (dict_e self))"

text \<open>A dictionary holds each key once.\<close>

definition wf_set :: "EntitySet \<Rightarrow> bool" where
  "wf_set self \<longleftrightarrow> distinct (map fst (dict_e self))"

text \<open>Two records with the same identifier and different content.\<close>

definition old_record :: element where
  "old_record = Element (EntityDescriptor saml_ns)
     [(''entityID'', ''https://idp.example.org''), (''validUntil'', ''2020-01-01T00:00:00Z'')]
     [] []"

definition new_record :: element where
  "new_record = Element (EntityDescriptor saml_ns)
     [(''entityID'', ''https://idp.example.org'')] [] []"

section \<open>Exceptions, configuration, time\<close>

text \<open>
  Exceptions are values. \<open>MetadataException\<close> is the repository's own exception with
  its message; \<open>TypeError\<close> and \<open>AttributeError\<close> are the interpreter's; \<open>External\<close>
  stands for an error of a library that a collaborator outside this module raises (the
  XML parser, the signature library, the timestamp parser), named by a message.
\<close>

datatype error = MetadataException string | TypeError | AttributeError | External string

text \<open>
  Modelled from the spec: the exception classes are declared in the exceptions module,
  which is not part of the embedded source. \<open>is_Exception ex\<close> is
  \<^verbatim>\<open>isinstance(ex, Exception)\<close>, which is what a clause \<^verbatim>\<open>except Exception\<close>
  catches. The interpreter's errors and the errors of the collaborators are exceptions
  in this sense. The repository's \<^verbatim>\<open>MetadataException\<close> is not: it derives from
  \<^verbatim>\<open>BaseException\<close>, and so the specification's error taxonomy has the
  whole-document validation failure always raised rather than swallowed.
\<close>

fun is_Exception :: "error \<Rightarrow> bool" where
  "is_Exception (MetadataException msg) = False"
| "is_Exception TypeError = True"
| "is_Exception AttributeError = True"
| "is_Exception (External msg) = True"

text \<open>
  The process configuration \<^verbatim>\<open>config\<close> is passed explicitly; the two options read
  by this module are kept.
\<close>

record config =
  default_cache_duration :: string
  respect_cache_duration :: bool

text \<open>
  A \<^verbatim>\<open>datetime\<close> is its wall-clock reading in microseconds from a fixed origin
  that lies on a whole second, together with its \<^verbatim>\<open>tzinfo\<close> (an offset, or
  \<^verbatim>\<open>None\<close> for a naive value). A \<^verbatim>\<open>timedelta\<close> is a number of microseconds.
\<close>

record datetime =
  ticks :: int
  tzinfo :: "int option"

type_synonym timedelta = int

text \<open>\<^verbatim>\<open>d.replace(microsecond=0)\<close> and \<^verbatim>\<open>d.replace(tzinfo=None)\<close>.\<close>

definition replace_microsecond_0 :: "datetime \<Rightarrow> datetime" where
  "replace_microsecond_0 d = d\<lparr>ticks := ticks d - ticks d mod 1000000\<rparr>"

definition replace_tzinfo_None :: "datetime \<Rightarrow> datetime" where
  "replace_tzinfo_None d = d\<lparr>tzinfo := None\<rparr>"

text \<open>
  \<^verbatim>\<open>a - b\<close> on datetimes: two naive values give the difference of their readings,
  two aware values the difference of their instants, and mixing them raises.
\<close>

definition datetime_sub :: "datetime \<Rightarrow> datetime \<Rightarrow> error + timedelta" where
  "datetime_sub a b =
     (case (tzinfo a, tzinfo b) of
        (None, None) \<Rightarrow> Inr (ticks a - ticks b)
      | (Some oa, Some ob) \<Rightarrow> Inr ((ticks a - oa) - (ticks b - ob))
      | _ \<Rightarrow> Inl TypeError)"

text \<open>
  The instant a datetime names, on the scale of the UTC clock: its reading less its
  offset (the offset, like the reading, in microseconds); a naive value is read as UTC.
\<close>

definition utc_instant :: "datetime \<Rightarrow> int" where
  "utc_instant d = (case tzinfo d of None \<Rightarrow> ticks d | Some off \<Rightarrow> ticks d - off)"

text \<open>\<^verbatim>\<open>datetime.utcnow()\<close>: the clock reading is a parameter; the value is naive.\<close>

definition utcnow :: "int \<Rightarrow> datetime" where
  "utcnow clock = \<lparr>ticks = clock, tzinfo = None\<rparr>"

section \<open>The expiration calculators\<close>

text \<open>
  \<^verbatim>\<open>
  def metadata_expiration(t):
      relt = root(t)
      if relt.tag in ('{%s}EntityDescriptor' % NS['md'], '{%s}EntitiesDescriptor' % NS['md']):
          cache_duration = config.default_cache_duration
          valid_until = relt.get('validUntil', None)
          if valid_until is not None:
              now = datetime.utcnow()
              vu = iso2datetime(valid_until)
              now = now.replace(microsecond=0)
              vu = vu.replace(microsecond=0, tzinfo=None)
              return vu - now
          elif config.respect_cache_duration:
              cache_duration = relt.get('cacheDuration', config.default_cache_duration)
              if not cache_duration:
                  cache_duration = config.default_cache_duration
              return duration2timedelta(cache_duration)
      return None
  \<close>
  The helpers \<^verbatim>\<open>iso2datetime\<close> and \<^verbatim>\<open>duration2timedelta\<close> live in the
  utilities module and are parameters: the first parses a timestamp or raises, the
  second converts a duration literal and returns \<^verbatim>\<open>None\<close> for a string that is
  not one.
\<close>

definition metadata_expiration ::
  "namespaces \<Rightarrow> config \<Rightarrow> (string \<Rightarrow> error + datetime) \<Rightarrow> (string \<Rightarrow> timedelta option)
   \<Rightarrow> int \<Rightarrow> element \<Rightarrow> error + timedelta option" where
  "metadata_expiration NS cfg iso2datetime duration2timedelta clock t =
     (let relt = t in
      if tag relt \<in> set [EntityDescriptor NS, EntitiesDescriptor NS] then
        (case get relt ''validUntil'' of
           Some valid_until \<Rightarrow>
             (let now = utcnow clock in
              case iso2datetime valid_until of
                Inl ex \<Rightarrow> Inl ex
              | Inr vu \<Rightarrow>
                  (let now = replace_microsecond_0 now;
                       vu = replace_tzinfo_None (replace_microsecond_0 vu)
                   in case datetime_sub vu now of
                        Inl ex \<Rightarrow> Inl ex
                      | Inr d \<Rightarrow> Inr (Some d)))
         | None \<Rightarrow>
             if respect_cache_duration cfg then
               (let cache_duration =
                      (case get relt ''cacheDuration'' of
                         None \<Rightarrow> default_cache_duration cfg
                       | Some c \<Rightarrow> c);
                    cache_duration =
                      (if cache_duration = [] then default_cache_duration cfg
                       else cache_duration)
                in Inr (duration2timedelta cache_duration))
             else Inr None)
      else Inr None)"

text \<open>
  \<^verbatim>\<open>
  def expiration(t):
      relt = root(t)
      if relt.tag in ('{%s}EntityDescriptor' % NS['md'], '{%s}EntitiesDescriptor' % NS['md']):
          cache_duration = config.default_cache_duration
          valid_until = relt.get('validUntil', None)
          if valid_until is not None:
              now = datetime.utcnow()
              vu = iso2datetime(valid_until)
              now = now.replace(microsecond=0)
              vu = vu.replace(microsecond=0, tzinfo=None)
              return vu - now
          elif config.respect_cache_duration:
              cache_duration = relt.get('cacheDuration', config.default_cache_duration)
              return duration2timedelta(cache_duration)
      return None
  \<close>
\<close>

definition expiration ::
  "namespaces \<Rightarrow> config \<Rightarrow> (string \<Rightarrow> error + datetime) \<Rightarrow> (string \<Rightarrow> timedelta option)
   \<Rightarrow> int \<Rightarrow> element \<Rightarrow> error + timedelta option" where
  "expiration NS cfg iso2datetime duration2timedelta clock t =
     (let relt = t in
      if tag relt \<in> set [EntityDescriptor NS, EntitiesDescriptor NS] then
        (case get relt ''validUntil'' of
           Some valid_until \<Rightarrow>
             (let now = utcnow clock in
              case iso2datetime valid_until of
                Inl ex \<Rightarrow> Inl ex
              | Inr vu \<Rightarrow>
                  (let now = replace_microsecond_0 now;
                       vu = replace_tzinfo_None (replace_microsecond_0 vu)
                   in case datetime_sub vu now of
                        Inl ex \<Rightarrow> Inl ex
                      | Inr d \<Rightarrow> Inr (Some d)))
         | None \<Rightarrow>
             if respect_cache_duration cfg then
               (let cache_duration =
                      (case get relt ''cacheDuration'' of
                         None \<Rightarrow> default_cache_duration cfg
                       | Some c \<Rightarrow> c)
                in Inr (duration2timedelta cache_duration))
             else Inr None)
      else Inr None)"

text \<open>
  Concrete collaborators for evaluation: a configuration with a default of one hour,
  a timestamp parser that knows one timestamp in UTC and one that knows a timestamp two
  hours east of UTC, and a duration converter that knows the literal \<^verbatim>\<open>PT1H\<close>.
\<close>

definition hourly :: config where
  "hourly = \<lparr>default_cache_duration = ''PT1H'', respect_cache_duration = True\<rparr>"

definition one_timestamp :: "string \<Rightarrow> error + datetime" where
  "one_timestamp s =
     (if s = ''2030-01-01T13:00:00.250Z''
      then Inr \<lparr>ticks = 46800250000, tzinfo = Some 0\<rparr>
      else Inl (External ''ParseError''))"

definition only_PT1H :: "string \<Rightarrow> timedelta option" where
  "only_PT1H s = (if s = ''PT1H'' then Some 3600000000 else None)"

definition offset_timestamp :: "string \<Rightarrow> error + datetime" where
  "offset_timestamp s =
     (if s = ''2030-01-01T15:00:00.250+02:00''
      then Inr \<lparr>ticks = 54000250000, tzinfo = Some 7200000000\<rparr>
      else Inl (External ''ParseError''))"

definition offset_aggregate :: element where
  "offset_aggregate = Element (EntitiesDescriptor saml_ns)
     [(''Name'', ''fed''), (''validUntil'', ''2030-01-01T15:00:00.250+02:00'')] [] []"

definition expiring_aggregate :: element where
  "expiring_aggregate = Element (EntitiesDescriptor saml_ns)
     [(''Name'', ''fed''), (''validUntil'', ''2030-01-01T13:00:00.250Z'')] [] []"

definition empty_duration_aggregate :: element where
  "empty_duration_aggregate = Element (EntitiesDescriptor saml_ns)
     [(''Name'', ''fed''), (''cacheDuration'', [])] [] []"

section \<open>The aggregate builder\<close>

text \<open>
  The builder appends elements to a new container. With \<^verbatim>\<open>copy=False\<close> the element
  appended is the caller's own object, and \<^verbatim>\<open>t.append(e)\<close> of the XML library moves
  \<open>e\<close>: it takes \<open>e\<close> out of the children of its old parent, wherever that is, before it
  adds \<open>e\<close> at the end of \<open>t\<close>. Which element is nested in which therefore matters, and
  the builder is modelled on objects: an object is an element with a name (its
  identity). The caller's objects carry the names its references use; an object made
  during the call (the container, a copy) carries none. The world is the forest of the
  documents that the caller's references point into.
\<close>

datatype node = Node (ident: "nat option") (ntag: string) (nattrib: "(string \<times> string) list")
  (ntext: string) (kids: "node list")

text \<open>The element an object holds, and an element as objects without names.\<close>

fun erase :: "node \<Rightarrow> element" where
  "erase (Node i tg a x ks) = Element tg a x (map erase ks)"

fun unnamed :: "element \<Rightarrow> node" where
  "unnamed (Element tg a x cs) = Node None tg a x (map unnamed cs)"

text \<open>A document of its own whose root is the object \<open>r\<close>.\<close>

definition object :: "nat \<Rightarrow> element \<Rightarrow> node" where
  "object r e = Node (Some r) (tag e) (attrib e) (text_of e) (map unnamed (children e))"

text \<open>\<^verbatim>\<open>deepcopy(e)\<close>: new objects throughout, holding the same element.\<close>

fun deepcopy :: "node \<Rightarrow> node" where
  "deepcopy (Node i tg a x ks) = Node None tg a x (map deepcopy ks)"

text \<open>Following a reference: the object of that name, searched in document order.\<close>

fun find_ref :: "nat \<Rightarrow> node \<Rightarrow> node option"
and find_refs :: "nat \<Rightarrow> node list \<Rightarrow> node option" where
  "find_ref r (Node i tg a x ks) =
     (if i = Some r then Some (Node i tg a x ks) else find_refs r ks)"
| "find_refs r [] = None"
| "find_refs r (n # ns) = (case find_ref r n of Some m \<Rightarrow> Some m | None \<Rightarrow> find_refs r ns)"

text \<open>
  Taking the object \<open>r\<close> out of the children of its parent, below a node and in a
  forest (where a root has no parent and is taken off the forest).
\<close>

fun detach :: "nat \<Rightarrow> node \<Rightarrow> node"
and detaches :: "nat \<Rightarrow> node list \<Rightarrow> node list" where
  "detach r (Node i tg a x ks) = Node i tg a x (detaches r ks)"
| "detaches r [] = []"
| "detaches r (n # ns) =
     (if ident n = Some r then detaches r ns else detach r n # detaches r ns)"

definition append_kid :: "node \<Rightarrow> node \<Rightarrow> node" where
  "append_kid t e = Node (ident t) (ntag t) (nattrib t) (ntext t) (kids t @ [e])"

text \<open>
  An entity reference is a record itself (\<^verbatim>\<open>hasattr(member, 'tag')\<close>), given by the
  name of the object, or a name handed to \<^verbatim>\<open>lookup_fn\<close>, which returns references.
\<close>

datatype member = Direct nat | Name string

text \<open>
  The state of \<^verbatim>\<open>entitiesdescriptor\<close>: the container \<^verbatim>\<open>t\<close> under construction
  (field \<open>tree\<close>), the world, the dictionary \<^verbatim>\<open>seen\<close> and the counter \<^verbatim>\<open>nent\<close>.
\<close>

record aggregate =
  tree :: node
  world :: "node list"
  seen :: "string \<rightharpoonup> bool"
  nent :: nat

text \<open>
  \<^verbatim>\<open>
  def _insert(ent):
      entity_id = ent.get('entityID', None)
      if (ent is not None) and (entity_id is not None) and (entity_id not in seen):
          ent_insert = ent
          if copy:
              ent_insert = deepcopy(ent_insert)
          t.append(ent_insert)
          seen[entity_id] = True
  \<close>
  The reference is followed in the container and the world as they are now. A
  reference that names no object stands for \<^verbatim>\<open>None\<close>, on which \<^verbatim>\<open>ent.get\<close>
  raises \<^verbatim>\<open>AttributeError\<close> before the test \<^verbatim>\<open>ent is not None\<close> is reached. With
  \<^verbatim>\<open>copy\<close> the container receives a copy and nothing else changes; without it the
  object itself is moved to the end of the container.
\<close>

definition insert_ent :: "bool \<Rightarrow> aggregate \<Rightarrow> nat \<Rightarrow> error + aggregate" where
  "insert_ent copy st r =
     (case find_refs r (tree st # world st) of
        None \<Rightarrow> Inl AttributeError
      | Some ent \<Rightarrow>
          (case map_of (nattrib ent) ''entityID'' of
             None \<Rightarrow> Inr st
           | Some entity_id \<Rightarrow>
               if seen st entity_id = None then
                 (if copy then
                    Inr (st\<lparr>tree := append_kid (tree st) (deepcopy ent),
                            seen := (seen st)(entity_id \<mapsto> True)\<rparr>)
                  else
                    Inr (st\<lparr>tree := append_kid (detach r (tree st)) ent,
                            world := detaches r (world st),
                            seen := (seen st)(entity_id \<mapsto> True)\<rparr>))
               else Inr st))"

text \<open>One round of either loop: \<^verbatim>\<open>_insert(entity); nent += 1\<close>.\<close>

definition insert_count :: "bool \<Rightarrow> nat \<Rightarrow> aggregate \<Rightarrow> error + aggregate" where
  "insert_count copy r st =
     (case insert_ent copy st r of
        Inl ex \<Rightarrow> Inl ex
      | Inr st' \<Rightarrow> Inr (st'\<lparr>nent := nent st' + 1\<rparr>))"

text \<open>
  \<^verbatim>\<open>
  for member in entities:
      if hasattr(member, 'tag'):
          _insert(member)
          nent += 1
      else:
          for entity in lookup_fn(member):
              _insert(entity)
              nent += 1
  \<close>
  \<^verbatim>\<open>lookup_fn\<close> defaults to \<^verbatim>\<open>None\<close>; calling it then raises \<^verbatim>\<open>TypeError\<close>.
  The loops return the exception raised, if any, and the state reached.
\<close>

fun inserts :: "bool \<Rightarrow> nat list \<Rightarrow> aggregate \<Rightarrow> error option \<times> aggregate" where
  "inserts copy [] st = (None, st)"
| "inserts copy (r # rs) st =
     (case insert_count copy r st of
        Inl ex \<Rightarrow> (Some ex, st)
      | Inr st' \<Rightarrow> inserts copy rs st')"

fun members_loop ::
  "bool \<Rightarrow> (string \<Rightarrow> nat list) option \<Rightarrow> member list \<Rightarrow> aggregate
   \<Rightarrow> error option \<times> aggregate"
where
  "members_loop copy lookup_fn [] st = (None, st)"
| "members_loop copy lookup_fn (Direct r # ms) st =
     (case insert_count copy r st of
        Inl ex \<Rightarrow> (Some ex, st)
      | Inr st' \<Rightarrow> members_loop copy lookup_fn ms st')"
| "members_loop copy lookup_fn (Name n # ms) st =
     (case lookup_fn of
        None \<Rightarrow> (Some TypeError, st)
      | Some f \<Rightarrow>
          (case inserts copy (f n) st of
             (Some ex, st') \<Rightarrow> (Some ex, st')
           | (None, st') \<Rightarrow> members_loop copy lookup_fn ms st'))"

text \<open>
  \<^verbatim>\<open>
  def entitiesdescriptor(entities, name, lookup_fn=None, cache_duration=None,
                         valid_until=None, validate=True, copy=True):
      ...
      attrs = dict(Name=name, nsmap=NS)
      if cache_duration is not None:
          attrs['cacheDuration'] = cache_duration
      if valid_until is not None:
          attrs['validUntil'] = valid_until
      t = etree.Element("{%s}EntitiesDescriptor" % NS['md'], **attrs)
      nent = 0
      seen = {}  # TODO make better de-duplication
      for member in entities: ...
      if not nent:
          return None
      if validate:
          try:
              validate_document(t)
          except DocumentInvalid as ex:
              log.debug(xml_error(ex.error_log))
              raise MetadataException("XML schema validation failed: %s" % name)
      return t
  \<close>
  \<^verbatim>\<open>validate_document\<close> is the schema check of the utilities module, a parameter
  that tells whether the document is valid. The element constructor of the XML library
  rejects an attribute value that is not a string, so a \<^verbatim>\<open>name\<close> of \<^verbatim>\<open>None\<close>
  raises \<^verbatim>\<open>TypeError\<close>. The model takes the world \<open>W\<close> and returns, with the result
  or the exception, the world as the call leaves it.
\<close>

definition entitiesdescriptor ::
  "namespaces \<Rightarrow> (element \<Rightarrow> bool) \<Rightarrow> node list \<Rightarrow> member list \<Rightarrow> string option
   \<Rightarrow> (string \<Rightarrow> nat list) option \<Rightarrow> string option \<Rightarrow> string option \<Rightarrow> bool \<Rightarrow> bool
   \<Rightarrow> (error + node option) \<times> node list" where
  "entitiesdescriptor NS validate_document W entities name lookup_fn cache_duration valid_until
       validate copy =
     (case name of
        None \<Rightarrow> (Inl TypeError, W)
      | Some nm \<Rightarrow>
          (let attrs = [(''Name'', nm)]
                 @ (case cache_duration of None \<Rightarrow> [] | Some c \<Rightarrow> [(''cacheDuration'', c)])
                 @ (case valid_until of None \<Rightarrow> [] | Some v \<Rightarrow> [(''validUntil'', v)]);
               t0 = Node None (EntitiesDescriptor NS) attrs [] []
           in case members_loop copy lookup_fn entities
                     \<lparr>tree = t0, world = W, seen = Map.empty, nent = 0\<rparr> of
                (Some ex, st) \<Rightarrow> (Inl ex, world st)
              | (None, st) \<Rightarrow>
                  if nent st = 0 then (Inr None, world st)
                  else if validate then
                    (if validate_document (erase (tree st)) then (Inr (Some (tree st)), world st)
                     else (Inl (MetadataException (''XML schema validation failed: '' @ nm)),
                           world st))
                  else (Inr (Some (tree st)), world st)))"

text \<open>
  For stating what the builder produces. The names of the caller's objects in a node
  and in a forest, each with the identifier of the object, in document order; in a
  well-formed world no name occurs twice. The identifier of the record a reference
  points to, and the element it holds. The references met while walking the entity
  references, in the order they are met. The first-occurrence selection as the
  specification words it: the positions that carry an identifier which no earlier
  position carries, in order of position.
\<close>

definition eid_of :: "node \<Rightarrow> string option" where
  "eid_of n = map_of (nattrib n) ''entityID''"

fun names :: "node \<Rightarrow> (nat \<times> string option) list"
and names_forest :: "node list \<Rightarrow> (nat \<times> string option) list" where
  "names (Node i tg a x ks) =
     (case i of None \<Rightarrow> [] | Some r \<Rightarrow> [(r, map_of a ''entityID'')]) @ names_forest ks"
| "names_forest [] = []"
| "names_forest (n # ns) = names n @ names_forest ns"


definition entity_id :: "node list \<Rightarrow> nat \<Rightarrow> string option" where
  "entity_id W r = (case find_refs r W of None \<Rightarrow> None | Some n \<Rightarrow> eid_of n)"


definition encountered :: "(string \<Rightarrow> nat list) option \<Rightarrow> member list \<Rightarrow> nat list" where
  "encountered lookup_fn entities =
     concat (map (\<lambda>m. case m of
                         Direct r \<Rightarrow> [r]
                       | Name n \<Rightarrow> (case lookup_fn of None \<Rightarrow> [] | Some f \<Rightarrow> f n)) entities)"




text \<open>
  Records for evaluation: two sources publishing the same identifier, and a record
  with a second record below it.
\<close>

definition idp_a :: element where
  "idp_a = Element (EntityDescriptor saml_ns) [(''entityID'', ''https://a.example.org'')] [] []"

definition idp_a_again :: element where
  "idp_a_again = Element (EntityDescriptor saml_ns)
     [(''entityID'', ''https://a.example.org''), (''cacheDuration'', ''PT1H'')] [] []"

definition sp_b :: element where
  "sp_b = Element (EntityDescriptor saml_ns) [(''entityID'', ''https://b.example.org'')] [] []"

definition anonymous :: element where
  "anonymous = Element (EntityDescriptor saml_ns) [] [] []"

definition two_sources :: "node list" where
  "two_sources =
     [Node (Some 0) (EntitiesDescriptor saml_ns) [(''Name'', ''first'')] []
        [object 1 idp_a, object 2 sp_b],
      Node (Some 3) (EntitiesDescriptor saml_ns) [(''Name'', ''second'')] []
        [object 4 idp_a_again],
      object 5 anonymous]"

definition two_groups :: "string \<Rightarrow> nat list" where
  "two_groups n =
     (if n = ''first'' then [1, 2]
      else if n = ''second'' then [4]
      else [])"


section \<open>The filter\<close>

text \<open>
  \<^verbatim>\<open>
  def filter_invalids_from_document(t, base_url, validation_errors):
      xsd = schema()
      for e in iter_entities(t):
          if not xsd.validate(e):
              error = xml_error(xsd.error_log, m=base_url)
              entity_id = e.get("entityID")
              log.warn('removing \'%s\': schema validation failed (%s)' % (entity_id, error))
              validation_errors[entity_id] = error
              if e.getparent() is None:
                  return None
              e.getparent().remove(e)
      return t
  \<close>
  The schema is a parameter: \<open>xsd_validate e\<close> tells whether the record \<open>e\<close> (with its
  subtree) is valid, and \<open>xml_error e\<close> is the diagnostic rendered from the schema's
  error log after the failed validation of \<open>e\<close> (the base URL is part of the rendering).
  The dictionary \<^verbatim>\<open>validation_errors\<close> is a map from keys to diagnostics; a key is
  the result of \<^verbatim>\<open>e.get("entityID")\<close>, so it may be \<^verbatim>\<open>None\<close>. The function
  returns the document or \<^verbatim>\<open>None\<close> and leaves its entries in the dictionary; the
  model returns both.

  The loop removes elements from the tree it is iterating over. The iterator of the XML
  library holds, while the loop body runs on one record, the record that follows it in
  document order. A record without records below it is therefore unlinked without
  disturbing the walk. When the removed record has a record below it, the iterator is
  already inside the removed subtree: the walk goes on through that subtree and ends
  with it, and nothing after the removed record is visited. The walk over the nodes
  that have a parent returns the node as it is left in the tree (or nothing when it was
  removed), the dictionary, and whether the iteration has ended.
\<close>

type_synonym validation_errors = "string option \<rightharpoonup> string"

definition nested_entities :: "namespaces \<Rightarrow> element \<Rightarrow> element list" where
  "nested_entities NS e = concat (map (iter (EntityDescriptor NS)) (children e))"

fun walk ::
  "namespaces \<Rightarrow> (element \<Rightarrow> bool) \<Rightarrow> (element \<Rightarrow> string) \<Rightarrow> element \<Rightarrow> validation_errors
   \<Rightarrow> element option \<times> validation_errors \<times> bool"
and walks ::
  "namespaces \<Rightarrow> (element \<Rightarrow> bool) \<Rightarrow> (element \<Rightarrow> string) \<Rightarrow> element list \<Rightarrow> validation_errors
   \<Rightarrow> element list \<times> validation_errors \<times> bool"
where
  "walk NS xsd_validate xml_error (Element tg a x cs) errs =
     (if tg = EntityDescriptor NS \<and> \<not> xsd_validate (Element tg a x cs) then
        (let errs' = errs(get (Element tg a x cs) ''entityID'' \<mapsto> xml_error (Element tg a x cs))
         in if nested_entities NS (Element tg a x cs) = [] then (None, errs', False)
            else (case walks NS xsd_validate xml_error cs errs' of
                    (cs', errs'', stop) \<Rightarrow> (None, errs'', True)))
      else
        (case walks NS xsd_validate xml_error cs errs of
           (cs', errs', stop) \<Rightarrow> (Some (Element tg a x cs'), errs', stop)))"
| "walks NS xsd_validate xml_error [] errs = ([], errs, False)"
| "walks NS xsd_validate xml_error (c # cs) errs =
     (case walk NS xsd_validate xml_error c errs of
        (r, errs', stop) \<Rightarrow>
          if stop then ((case r of None \<Rightarrow> [] | Some c' \<Rightarrow> [c']) @ cs, errs', True)
          else (case walks NS xsd_validate xml_error cs errs' of
                  (cs', errs'', stop') \<Rightarrow>
                    ((case r of None \<Rightarrow> [] | Some c' \<Rightarrow> [c']) @ cs', errs'', stop')))"

text \<open>
  The document \<open>t\<close> is the root: it is the first element the iterator hands out when it
  is a record, and it alone has no parent.
\<close>

definition filter_invalids_from_document ::
  "namespaces \<Rightarrow> (element \<Rightarrow> bool) \<Rightarrow> (element \<Rightarrow> string) \<Rightarrow> element \<Rightarrow> validation_errors
   \<Rightarrow> element option \<times> validation_errors" where
  "filter_invalids_from_document NS xsd_validate xml_error t validation_errors =
     (if tag t = EntityDescriptor NS \<and> \<not> xsd_validate t then
        (None, validation_errors(get t ''entityID'' \<mapsto> xml_error t))
      else
        (case walks NS xsd_validate xml_error (children t) validation_errors of
           (cs', errs', stop) \<Rightarrow>
             (Some (Element (tag t) (attrib t) (text_of t) cs'), errs')))"

text \<open>
  For stating what the filter produces. A record fails when the schema rejects it. The
  tree without its failing records, everything else left in place:
\<close>

definition failing :: "namespaces \<Rightarrow> (element \<Rightarrow> bool) \<Rightarrow> element \<Rightarrow> bool" where
  "failing NS xsd_validate e \<longleftrightarrow> tag e = EntityDescriptor NS \<and> \<not> xsd_validate e"

fun prune :: "namespaces \<Rightarrow> (element \<Rightarrow> bool) \<Rightarrow> element \<Rightarrow> element" where
  "prune NS xsd_validate (Element tg a x cs) =
     Element tg a x
       (map (prune NS xsd_validate) (filter (\<lambda>c. \<not> failing NS xsd_validate c) cs))"

text \<open>No record lies below another record.\<close>

fun flat :: "namespaces \<Rightarrow> element \<Rightarrow> bool" where
  "flat NS (Element tg a x cs) \<longleftrightarrow>
     (if tg = EntityDescriptor NS then concat (map (iter (EntityDescriptor NS)) cs) = []
      else list_all (flat NS) cs)"

text \<open>The diagnostics of a list of failing records, written in order.\<close>

definition record_errors ::
  "(element \<Rightarrow> string) \<Rightarrow> element list \<Rightarrow> validation_errors \<Rightarrow> validation_errors" where
  "record_errors xml_error es errs =
     fold (\<lambda>e m. m(get e ''entityID'' \<mapsto> xml_error e)) es errs"

text \<open>
  For evaluation: a schema that asks a record for its identifier and nothing else, a
  diagnostic, and three aggregates.
\<close>

definition needs_id :: "element \<Rightarrow> bool" where
  "needs_id e \<longleftrightarrow> get e ''entityID'' \<noteq> None"

definition complaint :: "element \<Rightarrow> string" where
  "complaint e = ''attribute entityID is required''"

definition wrong_b :: element where
  "wrong_b = Element (EntityDescriptor saml_ns) [(''ID'', ''b'')] [] []"

definition one_bad :: element where
  "one_bad = Element (EntitiesDescriptor saml_ns) [(''Name'', ''fed'')] []
     [idp_a, wrong_b, sp_b]"

definition two_bad :: element where
  "two_bad = Element (EntitiesDescriptor saml_ns) [(''Name'', ''fed'')] []
     [anonymous, wrong_b, sp_b]"

section \<open>Publication info\<close>

text \<open>
  \<^verbatim>\<open>e.find(".//tag")\<close> looks through the descendants of \<open>e\<close> in document order,
  \<open>e\<close> itself excluded, and \<^verbatim>\<open>e.find("./tag")\<close> through its children; the first
  match is returned, or \<^verbatim>\<open>None\<close>.
\<close>

definition descendants :: "string \<Rightarrow> element \<Rightarrow> element list" where
  "descendants tg e = concat (map (iter tg) (children e))"

definition find_descendant :: "string \<Rightarrow> element \<Rightarrow> element option" where
  "find_descendant tg e = (case descendants tg e of [] \<Rightarrow> None | d # ds \<Rightarrow> Some d)"

text \<open>\<^verbatim>\<open>t.append(e)\<close> of a new element: it becomes the last child.\<close>

definition append_child :: "element \<Rightarrow> element \<Rightarrow> element" where
  "append_child t e = Element (tag t) (attrib t) (text_of t) (children t @ [e])"

text \<open>\<^verbatim>\<open>e.set(name, value)\<close> on the attribute dictionary.\<close>

definition set_attr :: "element \<Rightarrow> string \<Rightarrow> string \<Rightarrow> element" where
  "set_attr e k v = Element (tag e) (AList.update k v (attrib e)) (text_of e) (children e)"

text \<open>
  \<^verbatim>\<open>
  def entity_extensions(e):
      ext = e.find("./{%s}Extensions" % NS['md'])
      if ext is None:
          ext = etree.Element("{%s}Extensions" % NS['md'])
          e.insert(0, ext)
      return ext
  \<close>
  The function returns a reference into \<open>e\<close> and may change \<open>e\<close>. The model returns the
  children of \<open>e\<close> after the call, split at the element returned: those before it, the
  element, those after it.
\<close>

definition entity_extensions ::
  "namespaces \<Rightarrow> element \<Rightarrow> element list \<times> element \<times> element list" where
  "entity_extensions NS e =
     (case dropWhile (\<lambda>c. tag c \<noteq> Extensions NS) (children e) of
        [] \<Rightarrow> ([], Element (Extensions NS) [] [] [], children e)
      | ext # post \<Rightarrow> (takeWhile (\<lambda>c. tag c \<noteq> Extensions NS) (children e), ext, post))"

text \<open>
  \<^verbatim>\<open>
  def set_pubinfo(e, publisher=None, creation_instant=None):
      if e.tag != "{%s}EntitiesDescriptor" % NS['md']:
          raise MetadataException("I can only set RegistrationAuthority to EntitiesDescriptor elements")
      if publisher is None:
          raise MetadataException("At least publisher must be provided")
      if creation_instant is None:
          now = datetime.utcnow()
          creation_instant = now.strftime("%Y-%m-%dT%H:%M:%SZ")
      ext = entity_extensions(e)
      pi = ext.find(".//{%s}PublicationInfo" % NS['mdrpi'])
      if pi is not None:
          raise MetadataException("A PublicationInfo element is already present")
      pi = etree.Element("{%s}PublicationInfo" % NS['mdrpi'])
      pi.set('publisher', publisher)
      if creation_instant:
          pi.set('creationInstant', creation_instant)
      ext.append(pi)
  \<close>
  The function changes \<open>e\<close> in place and returns nothing. The model returns the exception
  raised, if any, and \<open>e\<close> as the call leaves it. The formatted current time is the
  parameter \<open>now\<close>.
\<close>

definition set_pubinfo ::
  "namespaces \<Rightarrow> string \<Rightarrow> element \<Rightarrow> string option \<Rightarrow> string option
   \<Rightarrow> error option \<times> element" where
  "set_pubinfo NS now e publisher creation_instant =
     (if tag e \<noteq> EntitiesDescriptor NS then
        (Some (MetadataException
           ''I can only set RegistrationAuthority to EntitiesDescriptor elements''), e)
      else case publisher of
        None \<Rightarrow> (Some (MetadataException ''At least publisher must be provided''), e)
      | Some publisher \<Rightarrow>
          (let creation_instant = (case creation_instant of None \<Rightarrow> now | Some c \<Rightarrow> c)
           in case entity_extensions NS e of
                (pre, ext, post) \<Rightarrow>
                  (case find_descendant (PublicationInfo NS) ext of
                     Some found \<Rightarrow>
                       (Some (MetadataException ''A PublicationInfo element is already present''),
                        Element (tag e) (attrib e) (text_of e) (pre @ ext # post))
                   | None \<Rightarrow>
                       (let pi = Element (PublicationInfo NS) [] [] [];
                            pi = set_attr pi ''publisher'' publisher;
                            pi = (if creation_instant \<noteq> []
                                  then set_attr pi ''creationInstant'' creation_instant
                                  else pi)
                        in (None, Element (tag e) (attrib e) (text_of e)
                                    (pre @ append_child ext pi # post))))))"

text \<open>The publication info an aggregate carries, as the mutator sees it.\<close>

definition publication_info :: "namespaces \<Rightarrow> element \<Rightarrow> element list" where
  "publication_info NS e =
     (case entity_extensions NS e of
        (pre, ext, post) \<Rightarrow> descendants (PublicationInfo NS) ext)"

text \<open>An aggregate for evaluation, without an extensions element.\<close>

definition fed :: element where
  "fed = Element (EntitiesDescriptor saml_ns) [(''Name'', ''fed'')] [] [idp_a, sp_b]"

definition fed_published :: element where
  "fed_published = Element (EntitiesDescriptor saml_ns) [(''Name'', ''fed'')] []
     [Element (Extensions saml_ns) [] []
        [Element (PublicationInfo saml_ns)
           [(''publisher'', ''https://fed.example.org''),
            (''creationInstant'', ''2026-01-01T00:00:00Z'')] [] []],
      idp_a, sp_b]"

section \<open>The parser pipeline\<close>

text \<open>
  The collaborators of the utilities module, as parameters: the XML parser and the
  include processing (each returns the tree or raises), the signature check (returns
  the verified tree or raises), the timestamp parser and the duration converter, the
  per-record schema check with its diagnostic, and the whole-document schema check
  (false where the utilities raise \<^verbatim>\<open>DocumentInvalid\<close>).
\<close>

record utils =
  parse_xml :: "string \<Rightarrow> string option \<Rightarrow> error + element"
  xinclude :: "element \<Rightarrow> error + element"
  check_signature :: "element \<Rightarrow> string option \<Rightarrow> error + element"
  iso2datetime :: "string \<Rightarrow> error + datetime"
  duration2timedelta :: "string \<Rightarrow> timedelta option"
  xsd_validate :: "element \<Rightarrow> bool"
  xml_error :: "element \<Rightarrow> string"
  validate_document :: "element \<Rightarrow> bool"

text \<open>
  \<^verbatim>\<open>
  for e in iter_entities(t):
      if e.get('ID') is not None:
          del e.attrib['ID']
  \<close>
\<close>

fun strip_ID :: "namespaces \<Rightarrow> element \<Rightarrow> element" where
  "strip_ID NS (Element tg a x cs) =
     Element tg (if tg = EntityDescriptor NS then AList.delete ''ID'' a else a) x
       (map (strip_ID NS) cs)"

text \<open>
  The body of the \<^verbatim>\<open>try\<close> statement of \<^verbatim>\<open>parse_saml_metadata\<close>:
  \<^verbatim>\<open>
  t = parse_xml(source, base_url=base_url)
  t.xinclude()
  expire_time_offset = metadata_expiration(t)
  t = check_signature(t, key)
  # get rid of ID as early as possible - probably not unique
  for e in iter_entities(t): ...
  t = root(t)
  if validate:
      if filter_invalid:
          t = filter_invalids_from_document(t, base_url=base_url,
                                            validation_errors=validation_errors)
      else:  # all or nothing
          try:
              validate_document(t)
          except DocumentInvalid as ex:
              raise MetadataException("schema validation failed: [%s] '%s': %s" %
                                      (base_url, source, xml_error(ex.error_log, m=base_url)))
  if t is not None:
      if t.tag == "{%s}EntityDescriptor" % NS['md']:
          t = entitiesdescriptor([t], base_url, copy=False)
  \<close>
  It yields the exception raised or the pair \<^verbatim>\<open>(t, expire_time_offset)\<close>, and the
  dictionary \<^verbatim>\<open>validation_errors\<close> as it leaves it. For the builder, the world is
  the document \<open>t\<close> alone, its root the one object referred to. The message of the schema
  exception is cut down to the rendered error log.
\<close>

definition try_body ::
  "namespaces \<Rightarrow> config \<Rightarrow> utils \<Rightarrow> int \<Rightarrow> string \<Rightarrow> string option \<Rightarrow> string option
   \<Rightarrow> bool \<Rightarrow> bool \<Rightarrow> validation_errors
   \<Rightarrow> (error + element option \<times> timedelta option) \<times> validation_errors" where
  "try_body NS cfg U clock source key base_url filter_invalid validate validation_errors =
     (case parse_xml U source base_url of
        Inl ex \<Rightarrow> (Inl ex, validation_errors)
      | Inr t \<Rightarrow>
     (case xinclude U t of
        Inl ex \<Rightarrow> (Inl ex, validation_errors)
      | Inr t \<Rightarrow>
     (case metadata_expiration NS cfg (iso2datetime U) (duration2timedelta U) clock t of
        Inl ex \<Rightarrow> (Inl ex, validation_errors)
      | Inr expire_time_offset \<Rightarrow>
     (case check_signature U t key of
        Inl ex \<Rightarrow> (Inl ex, validation_errors)
      | Inr t \<Rightarrow>
     (let t = strip_ID NS t;
          (checked, validation_errors) =
            (if validate then
               (if filter_invalid then
                  (case filter_invalids_from_document NS (xsd_validate U) (xml_error U) t
                          validation_errors of
                     (t, validation_errors) \<Rightarrow> (Inr t, validation_errors))
                else if validate_document U t then (Inr (Some t), validation_errors)
                else (Inl (MetadataException (''schema validation failed: '' @ xml_error U t)),
                      validation_errors))
             else (Inr (Some t), validation_errors))
      in case checked of
           Inl ex \<Rightarrow> (Inl ex, validation_errors)
         | Inr None \<Rightarrow> (Inr (None, expire_time_offset), validation_errors)
         | Inr (Some t) \<Rightarrow>
             if tag t = EntityDescriptor NS then
               (case fst (entitiesdescriptor NS (validate_document U) [object 0 t] [Direct 0]
                            base_url None None None True False) of
                  Inl ex \<Rightarrow> (Inl ex, validation_errors)
                | Inr t \<Rightarrow> (Inr (map_option erase t, expire_time_offset),
                             validation_errors))
             else (Inr (Some t, expire_time_offset), validation_errors))))))"

text \<open>
  \<^verbatim>\<open>
  def parse_saml_metadata(source, key=None, base_url=None, fail_on_error=False,
                          filter_invalid=True, validate=True, validation_errors=None):
      if validation_errors is None:
          validation_errors = dict()
      try:
          ...
      except Exception as ex:
          if fail_on_error:
              raise ex
          log.error(ex)
          return None, None
      log.debug("returning %d valid entities" % len(list(iter_entities(t))))
      return t, expire_time_offset
  \<close>
  The handler is entered for the exceptions that are instances of \<^verbatim>\<open>Exception\<close>;
  any other exception leaves the function as it is. The statement between the
  \<^verbatim>\<open>try\<close> statement and the final \<^verbatim>\<open>return\<close> only counts \<open>iter_entities t\<close>,
  which is defined for every \<open>t\<close>, \<^verbatim>\<open>None\<close> included.
\<close>

definition parse_saml_metadata ::
  "namespaces \<Rightarrow> config \<Rightarrow> utils \<Rightarrow> int \<Rightarrow> string \<Rightarrow> string option \<Rightarrow> string option
   \<Rightarrow> bool \<Rightarrow> bool \<Rightarrow> bool \<Rightarrow> validation_errors option
   \<Rightarrow> (error + element option \<times> timedelta option) \<times> validation_errors" where
  "parse_saml_metadata NS cfg U clock source key base_url fail_on_error filter_invalid
       validate validation_errors =
     (let validation_errors =
            (case validation_errors of None \<Rightarrow> Map.empty | Some d \<Rightarrow> d)
      in case try_body NS cfg U clock source key base_url filter_invalid validate
                validation_errors of
           (Inl ex, validation_errors) \<Rightarrow>
             if is_Exception ex then
               (if fail_on_error then (Inl ex, validation_errors)
                else (Inr (None, None), validation_errors))
             else (Inl ex, validation_errors)
         | (Inr (t, expire_time_offset), validation_errors) \<Rightarrow>
             (Inr (t, expire_time_offset), validation_errors))"



section \<open>Properties\<close>

subsection \<open>Enumeration\<close>

text \<open>
  Claim C10. The enumeration operations accept an absent document: for \<^verbatim>\<open>None\<close>,
  \<open>entities_list\<close> returns the empty list and \<open>iter_entities\<close> yields nothing;
  neither raises.
\<close>

theorem enumerate_absent:
  "entities_list NS None = [] \<and> iter_entities NS None = []"
  by (simp add: entities_list_def iter_entities_def)

subsection \<open>Adding to an entity set\<close>

text \<open>The operations of the class keep the keys of the dictionary distinct.\<close>

lemma wf_add: "wf_set self \<Longrightarrow> wf_set (add self v)"
  by (simp add: wf_set_def add_def distinct_update)

lemma wf_discard: "wf_set self \<Longrightarrow> wf_set (discard self v)"
  by (simp add: wf_set_def discard_def Let_def distinct_delete)

lemma wf_fold_add: "wf_set self \<Longrightarrow> wf_set (fold (\<lambda>e s. add s e) es self)"
  by (induction es arbitrary: self) (simp_all add: wf_add)

lemma wf_init: "wf_set (init initial)"
proof (cases initial)
  case None
  then show ?thesis by (simp add: init_def wf_set_def)
next
  case (Some es)
  have "wf_set \<lparr>dict_e = []\<rparr>" by (simp add: wf_set_def)
  then show ?thesis using Some by (simp add: init_def wf_fold_add)
qed

lemma update_present_values:
  "distinct (map fst al) \<Longrightarrow> k \<in> set (map fst al) \<Longrightarrow>
   map snd (AList.update k v al) = map (\<lambda>(k', r). if k' = k then v else r) al"
proof (induction al)
  case Nil
  then show ?case by simp
next
  case (Cons p ps)
  obtain a b where p: "p = (a, b)" by (cases p)
  show ?case
  proof (cases "a = k")
    case True
    with Cons.prems p have "k \<notin> set (map fst ps)" by simp
    then have "map (\<lambda>(k', r). if k' = k then v else r) ps = map snd ps"
      by (induction ps) auto
    with True p show ?thesis by simp
  next
    case False
    with Cons p show ?thesis by simp
  qed
qed

text \<open>
  Claim C8, as stated, fails: adding a record whose identifier is already in the set is
  not a no-op. \<open>add\<close> assigns to the dictionary key, so the set that held
  \<open>old_record\<close> holds \<open>new_record\<close> afterwards.
\<close>

theorem add_present_not_noop:
  "contains (init (Some [old_record])) new_record
   \<and> iter_set (init (Some [old_record])) = [old_record]
   \<and> iter_set (add (init (Some [old_record])) new_record) = [new_record]
   \<and> iter_set (add (init (Some [old_record])) new_record)
       \<noteq> iter_set (init (Some [old_record]))"
  by (simp add: contains_def init_def add_def iter_set_def get_def
      old_record_def new_record_def)

text \<open>
  Claim C8, amended. For every entity set and every record whose identifier is already
  present, adding the record replaces the record stored under that identifier by the
  new one (the later insert wins) and leaves every other record, the identifiers, their
  order and the size of the set as they were; the set still holds at most one record
  per identifier.
\<close>

theorem add_present_replaces:
  assumes "wf_set self" and "contains self v"
  shows "map fst (dict_e (add self v)) = map fst (dict_e self)
       \<and> len (add self v) = len self
       \<and> iter_set (add self v) =
           map (\<lambda>(k, r). if k = get v ''entityID'' then v else r) (dict_e self)
       \<and> wf_set (add self v)"
proof -
  from assms(2) have k: "get v ''entityID'' \<in> set (map fst (dict_e self))"
    by (simp add: contains_def)
  from assms(1) have d: "distinct (map fst (dict_e self))"
    by (simp add: wf_set_def)
  have keys: "map fst (dict_e (add self v)) = map fst (dict_e self)"
    using k by (simp add: add_def update_keys)
  have "len (add self v) = len self"
    using keys by (simp add: len_def)
  moreover have "iter_set (add self v) =
      map (\<lambda>(k, r). if k = get v ''entityID'' then v else r) (dict_e self)"
    using update_present_values [OF d k] by (simp add: iter_set_def add_def)
  moreover have "wf_set (add self v)"
    using keys d by (simp add: wf_set_def)
  ultimately show ?thesis using keys by simp
qed

theorem add_present_replaces_witness:
  "wf_set (init (Some [old_record])) \<and> contains (init (Some [old_record])) new_record
   \<and> iter_set (add (init (Some [old_record])) new_record) = [new_record]
   \<and> len (add (init (Some [old_record])) new_record) = 1"
  using add_present_replaces [of "init (Some [old_record])" new_record]
  by (simp add: contains_def init_def add_def iter_set_def get_def
      old_record_def new_record_def wf_set_def len_def)

subsection \<open>Expiration\<close>

lemma truncated_difference:
  "datetime_sub (replace_tzinfo_None (replace_microsecond_0 vu))
                (replace_microsecond_0 (utcnow clock))
   = Inr ((ticks vu - ticks vu mod 1000000) - (clock - clock mod 1000000))"
  by (simp add: datetime_sub_def replace_tzinfo_None_def replace_microsecond_0_def utcnow_def)

text \<open>
  Claim C6, as stated, fails for a timestamp that is not given in UTC: the calculator
  drops the offset of \<^verbatim>\<open>validUntil\<close> instead of applying it. At 12:00:00.25 UTC the
  timestamp 15:00:00.25+02:00 lies 3600 seconds ahead, and the calculator returns 10800
  seconds.
\<close>

theorem expiration_offset_dropped:
  "tag offset_aggregate = EntitiesDescriptor saml_ns
   \<and> get offset_aggregate ''validUntil'' = Some ''2030-01-01T15:00:00.250+02:00''
   \<and> offset_timestamp ''2030-01-01T15:00:00.250+02:00''
       = Inr \<lparr>ticks = 54000250000, tzinfo = Some 7200000000\<rparr>
   \<and> utc_instant \<lparr>ticks = 54000250000, tzinfo = Some 7200000000\<rparr>
       = 43200250000 + 3600 * 1000000
   \<and> metadata_expiration saml_ns hourly offset_timestamp only_PT1H 43200250000
       offset_aggregate = Inr (Some (10800 * 1000000))
   \<and> expiration saml_ns hourly offset_timestamp only_PT1H 43200250000
       offset_aggregate = Inr (Some (10800 * 1000000))"
  by (simp add: offset_aggregate_def get_def offset_timestamp_def utc_instant_def
      metadata_expiration_def expiration_def truncated_difference)

text \<open>
  Claim C6, amended. When the root (a record or a container) carries a
  \<^verbatim>\<open>validUntil\<close> timestamp given in UTC (its offset is zero or it has none), both
  calculators return \<^verbatim>\<open>validUntil\<close> minus the current time, each cut down to whole
  seconds before the subtraction. In particular, when such a timestamp lies 3600
  seconds after the current time, the result is exactly 3600 seconds, whatever the
  sub-second part is.
\<close>

theorem expiration_validUntil:
  assumes "tag t = EntityDescriptor NS \<or> tag t = EntitiesDescriptor NS"
    and "get t ''validUntil'' = Some s"
    and "i2d s = Inr vu"
    and "tzinfo vu = None \<or> tzinfo vu = Some 0"
  shows "metadata_expiration NS cfg i2d d2t clock t
           = Inr (Some ((utc_instant vu - utc_instant vu mod 1000000)
                        - (clock - clock mod 1000000)))
       \<and> expiration NS cfg i2d d2t clock t
           = Inr (Some ((utc_instant vu - utc_instant vu mod 1000000)
                        - (clock - clock mod 1000000)))
       \<and> (utc_instant vu = clock + 3600 * 1000000 \<longrightarrow>
            metadata_expiration NS cfg i2d d2t clock t = Inr (Some (3600 * 1000000))
          \<and> expiration NS cfg i2d d2t clock t = Inr (Some (3600 * 1000000)))"
proof -
  from assms(4) have u: "utc_instant vu = ticks vu"
    by (auto simp: utc_instant_def)
  have m: "metadata_expiration NS cfg i2d d2t clock t
      = Inr (Some ((ticks vu - ticks vu mod 1000000) - (clock - clock mod 1000000)))"
    using assms(1-3) by (auto simp: metadata_expiration_def truncated_difference)
  have e: "expiration NS cfg i2d d2t clock t
      = Inr (Some ((ticks vu - ticks vu mod 1000000) - (clock - clock mod 1000000)))"
    using assms(1-3) by (auto simp: expiration_def truncated_difference)
  have "ticks vu = clock + 3600 * 1000000 \<Longrightarrow>
      (ticks vu - ticks vu mod 1000000) - (clock - clock mod 1000000) = 3600 * 1000000"
    by presburger
  with m e u show ?thesis by simp
qed

theorem expiration_validUntil_witness:
  "(tag expiring_aggregate = EntityDescriptor saml_ns
      \<or> tag expiring_aggregate = EntitiesDescriptor saml_ns)
   \<and> get expiring_aggregate ''validUntil'' = Some ''2030-01-01T13:00:00.250Z''
   \<and> one_timestamp ''2030-01-01T13:00:00.250Z''
       = Inr \<lparr>ticks = 46800250000, tzinfo = Some 0\<rparr>
   \<and> utc_instant \<lparr>ticks = 46800250000, tzinfo = Some 0\<rparr> = 43200250000 + 3600 * 1000000
   \<and> metadata_expiration saml_ns hourly one_timestamp only_PT1H 43200250000
       expiring_aggregate = Inr (Some 3600000000)
   \<and> expiration saml_ns hourly one_timestamp only_PT1H 43200250000
       expiring_aggregate = Inr (Some 3600000000)"
  using expiration_validUntil [of expiring_aggregate saml_ns "''2030-01-01T13:00:00.250Z''"
      one_timestamp "\<lparr>ticks = 46800250000, tzinfo = Some 0\<rparr>" hourly only_PT1H 43200250000]
  by (simp add: expiring_aggregate_def get_def one_timestamp_def utc_instant_def)

lemma expiration_agree:
  "get t ''cacheDuration'' \<noteq> Some [] \<Longrightarrow>
   metadata_expiration NS cfg i2d d2t clock t
     = expiration NS cfg i2d d2t clock t"
  by (auto simp: metadata_expiration_def expiration_def Let_def split: option.splits)

lemma expiration_empty_cacheDuration:
  "metadata_expiration NS \<lparr>default_cache_duration = d, respect_cache_duration = True\<rparr>
      i2d d2t clock
      (Element (EntitiesDescriptor NS) [(''cacheDuration'', [])] x cs)
     = Inr (d2t d)
   \<and> expiration NS \<lparr>default_cache_duration = d, respect_cache_duration = True\<rparr>
      i2d d2t clock
      (Element (EntitiesDescriptor NS) [(''cacheDuration'', [])] x cs)
     = Inr (d2t [])"
  by (simp add: metadata_expiration_def expiration_def get_def)

text \<open>
  Claim C7. The two calculators differ on a root whose \<^verbatim>\<open>cacheDuration\<close> is present
  and empty: \<open>metadata_expiration\<close> falls back to the configured default (one hour
  here), \<open>expiration\<close> converts the empty string (which is no duration).
\<close>

theorem expiration_diverges:
  "metadata_expiration saml_ns hourly one_timestamp only_PT1H 0 empty_duration_aggregate
     = Inr (Some 3600000000)
   \<and> expiration saml_ns hourly one_timestamp only_PT1H 0 empty_duration_aggregate
     = Inr None"
  by (simp add: metadata_expiration_def expiration_def get_def hourly_def only_PT1H_def
      empty_duration_aggregate_def)

subsection \<open>The aggregate builder: objects\<close>




lemma erase_unnamed: "erase (unnamed e) = e"
  by (induction e) (simp add: map_idI)

lemma erase_object: "erase (object r e) = e"
  by (cases e) (simp add: object_def erase_unnamed map_idI)






lemma detach_root:
  "ident (detach r n) = ident n" "nattrib (detach r n) = nattrib n"
  "ntag (detach r n) = ntag n" "ntext (detach r n) = ntext n"
  by (cases n; simp)+





subsection \<open>The aggregate builder: first occurrences\<close>











subsection \<open>The aggregate builder: the loops\<close>









lemma insert_count_root:
  "insert_count copy r st = Inr st' \<Longrightarrow>
   ntag (tree st') = ntag (tree st) \<and> nent st' = nent st + 1"
  by (auto simp: insert_count_def insert_ent_def append_kid_def detach_root
      split: option.splits sum.splits if_splits)

lemma inserts_root:
  "inserts copy qs st = (None, st') \<Longrightarrow>
   ntag (tree st') = ntag (tree st) \<and> nent st' = nent st + length qs"
proof (induction qs arbitrary: st)
  case Nil
  then show ?case by simp
next
  case (Cons q qs)
  from Cons.prems obtain st1 where q: "insert_count copy q st = Inr st1"
    and rest: "inserts copy qs st1 = (None, st')"
    by (auto split: sum.splits)
  from insert_count_root [OF q] Cons.IH [OF rest] show ?case by simp
qed

lemma members_loop_root:
  "members_loop copy lookup_fn ms st = (None, st') \<Longrightarrow>
   ntag (tree st') = ntag (tree st)
   \<and> nent st' = nent st + length (encountered lookup_fn ms)
   \<and> \<not> (lookup_fn = None \<and> (\<exists>n. Name n \<in> set ms))"
proof (induction copy lookup_fn ms st rule: members_loop.induct)
  case (1 copy lookup_fn st)
  then show ?case by (simp add: encountered_def)
next
  case (2 copy lookup_fn r ms st)
  from "2.prems" obtain st1 where q: "insert_count copy r st = Inr st1"
    and rest: "members_loop copy lookup_fn ms st1 = (None, st')"
    by (auto split: sum.splits)
  from insert_count_root [OF q] "2.IH" [OF q rest] show ?case
    by (simp add: encountered_def)
next
  case (3 copy lookup_fn n ms st)
  from "3.prems" obtain f st1 where f: "lookup_fn = Some f"
    and q: "inserts copy (f n) st = (None, st1)"
    and rest: "members_loop copy lookup_fn ms st1 = (None, st')"
    by (auto split: option.splits prod.splits)
  from inserts_root [OF q] "3.IH" [OF f q [symmetric] refl rest] f show ?case
    by (simp add: encountered_def)
qed

lemma members_loop_nothing:
  "encountered lookup_fn ms = [] \<Longrightarrow> \<not> (lookup_fn = None \<and> (\<exists>n. Name n \<in> set ms)) \<Longrightarrow>
   members_loop copy lookup_fn ms st = (None, st)"
proof (induction copy lookup_fn ms st rule: members_loop.induct)
  case (1 copy lookup_fn st)
  then show ?case by simp
next
  case (2 copy lookup_fn r ms st)
  then show ?case by (simp add: encountered_def)
next
  case (3 copy lookup_fn n ms st)
  from "3.prems"(2) obtain f where f: "lookup_fn = Some f" by auto
  with "3.prems"(1) have e: "f n = []" and es: "encountered lookup_fn ms = []"
    by (simp_all add: encountered_def)
  from "3.prems"(2) f have no: "\<not> (lookup_fn = None \<and> (\<exists>n. Name n \<in> set ms))" by simp
  have "inserts copy (f n) st = (None, st)" by (simp add: e)
  with "3.IH" [OF f this [symmetric] refl es no] f show ?case by simp
qed




text \<open>
  When the builder returns \<^verbatim>\<open>None\<close>: exactly when it is given a name, no call of a
  missing lookup function is attempted, and no record is met at all. What counts is
  the records met, not the records accepted, since the counter is advanced after every
  call of \<^verbatim>\<open>_insert\<close>. In particular the empty list of references yields
  \<^verbatim>\<open>None\<close>.
\<close>

lemma entitiesdescriptor_absent_iff:
  "fst (entitiesdescriptor NS vd W entities name lookup_fn cache_duration valid_until
          validate copy) = Inr None
   \<longleftrightarrow> name \<noteq> None \<and> encountered lookup_fn entities = []
       \<and> \<not> (lookup_fn = None \<and> (\<exists>n. Name n \<in> set entities))"
proof (cases name)
  case None
  then show ?thesis by (simp add: entitiesdescriptor_def)
next
  case (Some nm)
  define t0 where "t0 = Node None (EntitiesDescriptor NS)
     ([(''Name'', nm)]
      @ (case cache_duration of None \<Rightarrow> [] | Some c \<Rightarrow> [(''cacheDuration'', c)])
      @ (case valid_until of None \<Rightarrow> [] | Some v \<Rightarrow> [(''validUntil'', v)])) [] []"
  define s0 where "s0 = \<lparr>tree = t0, world = W, seen = Map.empty, nent = 0\<rparr>"
  obtain ex st where run: "members_loop copy lookup_fn entities s0 = (ex, st)"
    by (cases "members_loop copy lookup_fn entities s0")
  show ?thesis
  proof (cases ex)
    case None
    with run have ok: "members_loop copy lookup_fn entities s0 = (None, st)" by simp
    from members_loop_root [OF ok]
    have "nent st = length (encountered lookup_fn entities)"
      and "\<not> (lookup_fn = None \<and> (\<exists>n. Name n \<in> set entities))"
      by (simp_all add: s0_def)
    with ok Some show ?thesis
      by (auto simp: entitiesdescriptor_def t0_def s0_def)
  next
    case (Some e)
    with run have bad: "members_loop copy lookup_fn entities s0 = (Some e, st)" by simp
    have "\<not> (encountered lookup_fn entities = []
        \<and> \<not> (lookup_fn = None \<and> (\<exists>n. Name n \<in> set entities)))"
    proof
      assume "encountered lookup_fn entities = []
        \<and> \<not> (lookup_fn = None \<and> (\<exists>n. Name n \<in> set entities))"
      then have "members_loop copy lookup_fn entities s0 = (None, s0)"
        by (simp add: members_loop_nothing)
      with bad show False by simp
    qed
    with bad \<open>name = Some nm\<close> show ?thesis
      by (auto simp: entitiesdescriptor_def t0_def s0_def)
  qed
qed

text \<open>
  Claim C2. The builder is to return \<^verbatim>\<open>None\<close> exactly when no record was accepted,
  and never a container that is present and empty. The code does not do so: a single
  record without an identifier is met but not accepted, the counter is one all the
  same, and with validation off the builder returns an empty container.
\<close>

theorem entitiesdescriptor_empty_container:
  "entitiesdescriptor saml_ns (\<lambda>d. True) [object 0 anonymous] [Direct 0] (Some ''fed'')
       None None None False True
     = (Inr (Some (Node None (EntitiesDescriptor saml_ns) [(''Name'', ''fed'')] [] [])),
        [object 0 anonymous])"
  by (simp add: entitiesdescriptor_def insert_count_def insert_ent_def object_def anonymous_def)



lemma two_groups_merge:
  "entitiesdescriptor saml_ns (\<lambda>d. True) two_sources
       [Name ''first'', Direct 4, Name ''second'', Direct 5]
       (Some ''fed'') (Some two_groups) None None True True
     = (Inr (Some (Node None (EntitiesDescriptor saml_ns) [(''Name'', ''fed'')] []
                    [unnamed idp_a, unnamed sp_b])),
        two_sources)"
  by (simp add: entitiesdescriptor_def insert_count_def insert_ent_def two_sources_def
      two_groups_def object_def idp_a_def idp_a_again_def sp_b_def anonymous_def append_kid_def)




subsection \<open>The filter\<close>

lemma no_records_flat: "iter (EntityDescriptor NS) e = [] \<Longrightarrow> flat NS e"
proof (induction e)
  case (Element tg a x cs)
  then show ?case by (auto simp: list_all_iff split: if_splits)
qed

lemma record_errors_Nil: "record_errors xe [] errs = errs"
  by (simp add: record_errors_def)

lemma record_errors_single:
  "record_errors xe [e] errs = errs(get e ''entityID'' \<mapsto> xe e)"
  by (simp add: record_errors_def)

lemma record_errors_append:
  "record_errors xe (es @ fs) errs
     = record_errors xe fs (record_errors xe es errs)"
  by (simp add: record_errors_def)

lemma walk_flat:
  "flat NS e \<Longrightarrow>
     walk NS v x e errs =
       (if failing NS v e then None else Some (prune NS v e),
        record_errors x (filter (\<lambda>r. \<not> v r) (iter (EntityDescriptor NS) e)) errs, False)"
  and walks_flat:
  "list_all (flat NS) cs \<Longrightarrow>
     walks NS v x cs errs =
       (map (prune NS v) (filter (\<lambda>c. \<not> failing NS v c) cs),
        record_errors x (filter (\<lambda>r. \<not> v r) (concat (map (iter (EntityDescriptor NS)) cs))) errs,
        False)"
proof (induction NS v x e errs and NS v x cs errs rule: walk_walks.induct)
  case (1 NS v x tg a t cs errs)
  show ?case
  proof (cases "tg = EntityDescriptor NS")
    case True
    with "1.prems" have none: "concat (map (iter (EntityDescriptor NS)) cs) = []" by simp
    then have "list_all (flat NS) cs"
      by (auto simp: list_all_iff intro: no_records_flat)
    have fl: "filter (\<lambda>r. \<not> v r) (concat (map (iter (EntityDescriptor NS)) cs)) = []"
      by (simp only: none filter.simps)
    have it: "iter (EntityDescriptor NS) (Element (EntityDescriptor NS) a t cs)
        = [Element (EntityDescriptor NS) a t cs]"
      by (simp add: none)
    have ne: "nested_entities NS (Element (EntityDescriptor NS) a t cs) = []"
      by (simp only: nested_entities_def element.sel none)
    show ?thesis
    proof (cases "v (Element tg a t cs)")
      case True
      then have "walks NS v x cs errs =
          (map (prune NS v) (filter (\<lambda>c. \<not> failing NS v c) cs), errs, False)"
        using "1.IH"(2) \<open>list_all (flat NS) cs\<close> by (simp add: fl record_errors_Nil)
      with True \<open>tg = EntityDescriptor NS\<close> show ?thesis
        by (simp add: failing_def it record_errors_Nil del: iter.simps)
    next
      case False
      with \<open>tg = EntityDescriptor NS\<close> show ?thesis
        by (simp add: failing_def it ne record_errors_single fun_eq_iff del: iter.simps)
    qed
  next
    case False
    with "1.prems" have "list_all (flat NS) cs" by simp
    with "1.IH"(2) False show ?thesis
      by (simp add: failing_def)
  qed
next
  case (2 NS v x errs)
  then show ?case by (simp add: record_errors_Nil)
next
  case (3 NS v x c cs errs)
  from "3.prems" have c: "flat NS c" and cs: "list_all (flat NS) cs" by simp_all
  note w = "3.IH"(1) [OF c]
  have ws: "walks NS v x cs
        (record_errors x (filter (\<lambda>r. \<not> v r) (iter (EntityDescriptor NS) c)) errs) =
       (map (prune NS v) (filter (\<lambda>c. \<not> failing NS v c) cs),
        record_errors x (filter (\<lambda>r. \<not> v r) (concat (map (iter (EntityDescriptor NS)) cs)))
          (record_errors x (filter (\<lambda>r. \<not> v r) (iter (EntityDescriptor NS) c)) errs),
        False)"
    using "3.IH"(2) [OF w [symmetric] refl _ cs] by simp
  show ?case
    by (simp add: w ws record_errors_append)
qed


lemma no_records_prune: "iter (EntityDescriptor NS) e = [] \<Longrightarrow> prune NS v e = e"
proof (induction e)
  case (Element tg a x cs)
  then have tg: "tg \<noteq> EntityDescriptor NS"
    and cs: "\<And>c. c \<in> set cs \<Longrightarrow> iter (EntityDescriptor NS) c = []"
    by (auto split: if_splits)
  have keep: "filter (\<lambda>c. \<not> failing NS v c) cs = cs"
  proof (rule filter_True)
    show "\<forall>c\<in>set cs. \<not> failing NS v c"
    proof
      fix c assume "c \<in> set cs"
      then have "iter (EntityDescriptor NS) c = []" by (rule cs)
      then show "\<not> failing NS v c" by (cases c) (auto simp: failing_def split: if_splits)
    qed
  qed
  have "map (prune NS v) cs = cs"
    using Element.IH cs by (simp add: map_idI)
  with keep show ?case by simp
qed

lemma flat_failing_iter:
  "flat NS e \<Longrightarrow> failing NS v e \<Longrightarrow> iter (EntityDescriptor NS) e = [e]"
  by (cases e) (simp add: failing_def)

lemma iter_prune:
  "flat NS e \<Longrightarrow> \<not> failing NS v e \<Longrightarrow>
   iter (EntityDescriptor NS) (prune NS v e) = filter v (iter (EntityDescriptor NS) e)"
proof (induction e)
  case (Element tg a x cs)
  show ?case
  proof (cases "tg = EntityDescriptor NS")
    case True
    with Element.prems have none: "concat (map (iter (EntityDescriptor NS)) cs) = []"
      and valid: "v (Element tg a x cs)"
      by (simp_all add: failing_def)
    have "iter (EntityDescriptor NS) (Element tg a x cs) = []" if "tg \<noteq> EntityDescriptor NS"
      using that True by simp
    have same: "prune NS v c = c" if "c \<in> set cs" for c
    proof -
      from none that have "iter (EntityDescriptor NS) c = []" by auto
      then show ?thesis by (rule no_records_prune)
    qed
    have keep: "filter (\<lambda>c. \<not> failing NS v c) cs = cs"
    proof (rule filter_True)
      show "\<forall>c\<in>set cs. \<not> failing NS v c"
      proof
        fix c assume "c \<in> set cs"
        with none have "iter (EntityDescriptor NS) c = []" by auto
        then show "\<not> failing NS v c" by (cases c) (auto simp: failing_def split: if_splits)
      qed
    qed
    have "map (prune NS v) cs = cs" using same by (simp add: map_idI)
    with keep have "prune NS v (Element tg a x cs) = Element tg a x cs" by simp
    with True none valid show ?thesis by simp
  next
    case False
    with Element.prems have fl: "list_all (flat NS) cs" by simp
    have "concat (map (iter (EntityDescriptor NS))
            (map (prune NS v) (filter (\<lambda>c. \<not> failing NS v c) ds)))
        = filter v (concat (map (iter (EntityDescriptor NS)) ds))"
      if "set ds \<subseteq> set cs" for ds
      using that
    proof (induction ds)
      case Nil
      then show ?case by simp
    next
      case (Cons d ds)
      then have d: "d \<in> set cs" and ds: "set ds \<subseteq> set cs" by simp_all
      from d fl have fd: "flat NS d" by (simp add: list_all_iff)
      show ?case
      proof (cases "failing NS v d")
        case True
        then have "iter (EntityDescriptor NS) d = [d]" and "\<not> v d"
          using fd flat_failing_iter [of NS d v] by (simp_all add: failing_def)
        with True Cons.IH [OF ds] show ?thesis by simp
      next
        case False
        with Element.IH [OF d fd] Cons.IH [OF ds] show ?thesis by simp
      qed
    qed
    from this [of cs] False show ?thesis by simp
  qed
qed


lemma dom_record_errors:
  "dom (record_errors xe es errs) = dom errs \<union> (\<lambda>e. get e ''entityID'') ` set es"
proof (induction es arbitrary: errs)
  case Nil
  then show ?case by (simp add: record_errors_def)
next
  case (Cons e es)
  have "record_errors xe (e # es) errs
      = record_errors xe es (errs(get e ''entityID'' \<mapsto> xe e))"
    by (simp add: record_errors_def)
  then show ?case using Cons.IH by auto
qed

text \<open>
  Claim C3, as stated, fails: the dictionary has one entry per identifier, not per
  failing record. In the aggregate \<open>two_bad\<close> two of the three records lack the
  identifier the schema asks for; both are removed, and the dictionary, empty before,
  holds the single key \<^verbatim>\<open>None\<close> afterwards.
\<close>

theorem filter_two_failing_one_entry:
  "tag two_bad \<noteq> EntityDescriptor saml_ns \<and> flat saml_ns two_bad
   \<and> filter (\<lambda>e. \<not> needs_id e) (iter_entities saml_ns (Some two_bad)) = [anonymous, wrong_b]
   \<and> filter_invalids_from_document saml_ns needs_id complaint two_bad Map.empty
       = (Some (Element (EntitiesDescriptor saml_ns) [(''Name'', ''fed'')] [] [sp_b]),
          [None \<mapsto> ''attribute entityID is required''])
   \<and> card (dom (snd (filter_invalids_from_document saml_ns needs_id complaint two_bad Map.empty)))
       = 1"
  by (simp add: filter_invalids_from_document_def two_bad_def anonymous_def wrong_b_def sp_b_def
      needs_id_def complaint_def get_def iter_entities_def nested_entities_def saml_ns_def
      EntityDescriptor_def EntitiesDescriptor_def qname_def)

text \<open>
  Claim C3, amended. For every document whose records all have a parent container
  (the root is not a record and no record lies below another record), the filter returns the document without the records
  that fail validation, everything else in place: the records left are the passing
  records, in document order. The dictionary receives the diagnostics of the failing
  records, written in document order under each record's identifier, so its keys
  afterwards are its keys before together with the identifiers of the failing records:
  one entry per identifier that a failing record carries. In particular, when exactly
  one record fails, one record fewer is left and an empty dictionary ends with exactly
  the entry of that record.
\<close>

theorem filter_removes_failing:
  assumes "tag t \<noteq> EntityDescriptor NS" and "flat NS t"
  shows "filter_invalids_from_document NS v x t errs
           = (Some (prune NS v t),
              record_errors x (filter (\<lambda>e. \<not> v e) (iter_entities NS (Some t))) errs)
       \<and> iter_entities NS (Some (prune NS v t)) = filter v (iter_entities NS (Some t))
       \<and> dom (record_errors x (filter (\<lambda>e. \<not> v e) (iter_entities NS (Some t))) errs)
           = dom errs \<union> (\<lambda>e. get e ''entityID'') ` {e \<in> set (iter_entities NS (Some t)). \<not> v e}
       \<and> (\<forall>e. filter (\<lambda>e. \<not> v e) (iter_entities NS (Some t)) = [e] \<longrightarrow>
              length (iter_entities NS (Some (prune NS v t))) + 1
                = length (iter_entities NS (Some t))
            \<and> snd (filter_invalids_from_document NS v x t Map.empty)
                = [get e ''entityID'' \<mapsto> x e])"
proof -
  obtain tg a tx cs where t: "t = Element tg a tx cs" by (cases t)
  from assms t have tg: "tg \<noteq> EntityDescriptor NS" and cs: "list_all (flat NS) cs"
    by simp_all
  have nf: "\<not> failing NS v t" using assms(1) by (simp add: failing_def)
  have it: "iter_entities NS (Some t) = concat (map (iter (EntityDescriptor NS)) cs)"
    using t tg by (simp add: iter_entities_def)
  have run: "filter_invalids_from_document NS v x t m
      = (Some (prune NS v t),
         record_errors x (filter (\<lambda>e. \<not> v e) (iter_entities NS (Some t))) m)" for m
    using tg walks_flat [OF cs, of v x m]
    by (simp add: filter_invalids_from_document_def t it [unfolded t] del: iter.simps)
  have left: "iter_entities NS (Some (prune NS v t)) = filter v (iter_entities NS (Some t))"
    using iter_prune [OF assms(2) nf] by (simp add: iter_entities_def)
  have keys: "dom (record_errors x (filter (\<lambda>e. \<not> v e) (iter_entities NS (Some t))) errs)
      = dom errs \<union> (\<lambda>e. get e ''entityID'') ` {e \<in> set (iter_entities NS (Some t)). \<not> v e}"
    by (simp add: dom_record_errors)
  have one: "length (iter_entities NS (Some (prune NS v t))) + 1
        = length (iter_entities NS (Some t))
      \<and> snd (filter_invalids_from_document NS v x t Map.empty) = [get e ''entityID'' \<mapsto> x e]"
    if e: "filter (\<lambda>e. \<not> v e) (iter_entities NS (Some t)) = [e]" for e
  proof -
    have "length (filter v (iter_entities NS (Some t)))
        + length (filter (\<lambda>e. \<not> v e) (iter_entities NS (Some t)))
        = length (iter_entities NS (Some t))"
      by (rule sum_length_filter_compl)
    then have "length (iter_entities NS (Some (prune NS v t))) + 1
        = length (iter_entities NS (Some t))"
      by (simp add: left e)
    moreover have "snd (filter_invalids_from_document NS v x t Map.empty)
        = [get e ''entityID'' \<mapsto> x e]"
      by (simp add: run e record_errors_single)
    ultimately show ?thesis by simp
  qed
  from run [of errs] left keys one show ?thesis by blast
qed

theorem filter_removes_failing_witness:
  "tag one_bad \<noteq> EntityDescriptor saml_ns \<and> flat saml_ns one_bad
   \<and> filter (\<lambda>e. \<not> needs_id e) (iter_entities saml_ns (Some one_bad)) = [wrong_b]
   \<and> filter_invalids_from_document saml_ns needs_id complaint one_bad Map.empty
       = (Some (Element (EntitiesDescriptor saml_ns) [(''Name'', ''fed'')] [] [idp_a, sp_b]),
          [None \<mapsto> ''attribute entityID is required''])
   \<and> length (iter_entities saml_ns (Some one_bad)) = 3
   \<and> length (iter_entities saml_ns (Some (prune saml_ns needs_id one_bad))) = 2"
  using filter_removes_failing [of one_bad saml_ns needs_id complaint Map.empty]
  by (simp add: one_bad_def idp_a_def wrong_b_def sp_b_def
      needs_id_def complaint_def get_def iter_entities_def saml_ns_def failing_def
      EntityDescriptor_def EntitiesDescriptor_def qname_def record_errors_def)

text \<open>
  Claim C4. When the root of the document is itself a record and fails validation,
  the filter returns \<^verbatim>\<open>None\<close>, not an emptied container, and the failure is in the
  dictionary under the record's identifier.
\<close>

theorem filter_rejects_lone_record:
  assumes "tag t = EntityDescriptor NS" and "\<not> v t"
  shows "filter_invalids_from_document NS v x t errs
           = (None, errs(get t ''entityID'' \<mapsto> x t))"
  using assms by (simp add: filter_invalids_from_document_def)

theorem filter_rejects_lone_record_witness:
  "tag wrong_b = EntityDescriptor saml_ns \<and> \<not> needs_id wrong_b
   \<and> filter_invalids_from_document saml_ns needs_id complaint wrong_b Map.empty
       = (None, [None \<mapsto> ''attribute entityID is required''])"
  using filter_rejects_lone_record [of wrong_b saml_ns needs_id complaint Map.empty]
  by (simp add: wrong_b_def needs_id_def complaint_def get_def)

subsection \<open>Publication info\<close>

lemma entity_extensions_shape:
  assumes "entity_extensions NS e = (pre, ext, post)"
  shows "tag ext = Extensions NS \<and> (\<forall>c \<in> set pre. tag c \<noteq> Extensions NS)"
proof (cases "dropWhile (\<lambda>c. tag c \<noteq> Extensions NS) (children e)")
  case Nil
  with assms show ?thesis by (auto simp: entity_extensions_def)
next
  case (Cons d ds)
  then have "tag d = Extensions NS"
    using hd_dropWhile [of "\<lambda>c. tag c \<noteq> Extensions NS" "children e"] by simp
  moreover have "\<forall>c \<in> set (takeWhile (\<lambda>c. tag c \<noteq> Extensions NS) (children e)).
      tag c \<noteq> Extensions NS"
    by (auto dest: set_takeWhileD)
  ultimately show ?thesis using assms Cons by (simp add: entity_extensions_def)
qed

lemma entity_extensions_again:
  assumes "tag ext = Extensions NS" and "\<forall>c \<in> set pre. tag c \<noteq> Extensions NS"
  shows "entity_extensions NS (Element tg a x (pre @ ext # post)) = (pre, ext, post)"
proof -
  have "dropWhile (\<lambda>c. tag c \<noteq> Extensions NS) (pre @ ext # post) = ext # post"
    using assms by simp
  moreover have "takeWhile (\<lambda>c. tag c \<noteq> Extensions NS) (pre @ ext # post) = pre"
    using assms by simp
  ultimately show ?thesis by (simp add: entity_extensions_def)
qed


lemma set_attr_sel:
  "tag (set_attr e k v) = tag e" "children (set_attr e k v) = children e"
  "get (set_attr e k v) k = Some v"
  by (simp_all add: set_attr_def get_def update_conv')

text \<open>
  Claim C9. On an aggregate that carries no publication info, a call with a publisher
  succeeds and leaves exactly one publication-info element, carrying that publisher,
  in the extensions of the aggregate. Every further call on the aggregate, whatever
  its arguments, raises the exception that publication info is already present and
  leaves the aggregate as it was: nothing is overwritten and nothing is added.
\<close>

theorem set_pubinfo_one_shot:
  assumes "tag e = EntitiesDescriptor NS" and "publication_info NS e = []"
  shows "\<exists>e1 pi.
           set_pubinfo NS now e (Some publisher) creation_instant = (None, e1)
         \<and> publication_info NS e1 = [pi]
         \<and> tag pi = PublicationInfo NS
         \<and> get pi ''publisher'' = Some publisher
         \<and> (\<forall>now2 publisher2 creation_instant2.
               set_pubinfo NS now2 e1 (Some publisher2) creation_instant2
                 = (Some (MetadataException ''A PublicationInfo element is already present''),
                    e1))"
proof -
  obtain pre ext post where ee: "entity_extensions NS e = (pre, ext, post)"
    by (cases "entity_extensions NS e")
  from entity_extensions_shape [OF ee]
  have ext: "tag ext = Extensions NS" and pre: "\<forall>c \<in> set pre. tag c \<noteq> Extensions NS"
    by simp_all
  from assms(2) ee have none: "descendants (PublicationInfo NS) ext = []"
    by (simp add: publication_info_def)
  define ci where "ci = (case creation_instant of None \<Rightarrow> now | Some c \<Rightarrow> c)"
  define pi where "pi =
    (if ci \<noteq> []
     then set_attr (set_attr (Element (PublicationInfo NS) [] [] []) ''publisher'' publisher)
            ''creationInstant'' ci
     else set_attr (Element (PublicationInfo NS) [] [] []) ''publisher'' publisher)"
  define e1 where "e1 = Element (tag e) (attrib e) (text_of e) (pre @ append_child ext pi # post)"
  have tpi: "tag pi = PublicationInfo NS" and cpi: "children pi = []"
    by (simp_all add: pi_def set_attr_sel)
  have ppi: "get pi ''publisher'' = Some publisher"
    by (simp add: pi_def set_attr_def get_def update_conv')
  have first: "set_pubinfo NS now e (Some publisher) creation_instant = (None, e1)"
    using assms(1) ee none
    by (simp add: set_pubinfo_def find_descendant_def e1_def pi_def ci_def Let_def)
  have ipi: "iter (PublicationInfo NS) pi = [pi]"
    using tpi cpi by (cases pi) simp
  have ext1: "tag (append_child ext pi) = Extensions NS"
    using ext by (simp add: append_child_def)
  have ee1: "entity_extensions NS e1 = (pre, append_child ext pi, post)"
    unfolding e1_def using ext1 pre by (rule entity_extensions_again)
  have d1: "descendants (PublicationInfo NS) (append_child ext pi) = [pi]"
    using none ipi by (simp add: descendants_def append_child_def)
  have info: "publication_info NS e1 = [pi]"
    by (simp add: publication_info_def ee1 d1)
  have te1: "tag e1 = EntitiesDescriptor NS"
    using assms(1) by (simp add: e1_def)
  have again: "set_pubinfo NS now2 e1 (Some publisher2) creation_instant2
      = (Some (MetadataException ''A PublicationInfo element is already present''), e1)"
    for now2 publisher2 creation_instant2
    using te1 by (simp add: set_pubinfo_def ee1 find_descendant_def d1 Let_def) (simp add: e1_def)
  from first info tpi ppi again show ?thesis by blast
qed

lemma fed_first_call:
  "set_pubinfo saml_ns ''2026-01-01T00:00:00Z'' fed (Some ''https://fed.example.org'') None
     = (None, fed_published)"
  by (simp add: set_pubinfo_def fed_def fed_published_def entity_extensions_def
      find_descendant_def descendants_def set_attr_def append_child_def idp_a_def sp_b_def
      EntityDescriptor_def Extensions_def qname_def)

theorem set_pubinfo_one_shot_witness:
  "tag fed = EntitiesDescriptor saml_ns \<and> publication_info saml_ns fed = []
   \<and> set_pubinfo saml_ns ''2026-01-01T00:00:00Z'' fed (Some ''https://fed.example.org'') None
     = (None, fed_published)
   \<and> set_pubinfo saml_ns ''2027-01-01T00:00:00Z'' fed_published
        (Some ''https://other.example.org'') None
     = (Some (MetadataException ''A PublicationInfo element is already present''),
        fed_published)"
proof -
  have tg: "tag fed = EntitiesDescriptor saml_ns" by (simp add: fed_def)
  have no: "publication_info saml_ns fed = []"
    by (simp add: publication_info_def fed_def entity_extensions_def descendants_def
        idp_a_def sp_b_def EntityDescriptor_def Extensions_def qname_def)
  from set_pubinfo_one_shot [OF tg no, of "''2026-01-01T00:00:00Z''" "''https://fed.example.org''" None]
  obtain e1 where e1: "set_pubinfo saml_ns ''2026-01-01T00:00:00Z'' fed
        (Some ''https://fed.example.org'') None = (None, e1)"
    and again: "\<And>now2 publisher2 creation_instant2.
        set_pubinfo saml_ns now2 e1 (Some publisher2) creation_instant2
          = (Some (MetadataException ''A PublicationInfo element is already present''), e1)"
    by blast
  from e1 fed_first_call have "e1 = fed_published" by simp
  with tg no fed_first_call again [of "''2027-01-01T00:00:00Z''" "''https://other.example.org''" None]
  show ?thesis by simp
qed

subsection \<open>The parser pipeline\<close>

text \<open>
  The last step of the body, on a single record that carries an identifier: the record
  ends up as the one member of a new container named after the base URL.
\<close>

lemma wrap_single_record:
  assumes "get t ''entityID'' = Some i"
    and "vd (Element (EntitiesDescriptor NS) [(''Name'', u)] [] [t])"
  shows "fst (entitiesdescriptor NS vd [object 0 t] [Direct 0] (Some u) None None None True False)
           = Inr (Some (Node None (EntitiesDescriptor NS) [(''Name'', u)] [] [object 0 t]))
       \<and> erase (Node None (EntitiesDescriptor NS) [(''Name'', u)] [] [object 0 t])
           = Element (EntitiesDescriptor NS) [(''Name'', u)] [] [t]"
  using assms
  by (simp add: entitiesdescriptor_def insert_count_def insert_ent_def object_def get_def
      append_kid_def erase_unnamed map_idI)

lemma parse_saml_metadata_uncaught:
  "fst (try_body NS cfg U clock source key base_url filter_invalid validate
          (case validation_errors of None \<Rightarrow> Map.empty | Some d \<Rightarrow> d)) = Inl ex \<Longrightarrow>
   \<not> is_Exception ex \<Longrightarrow>
   fst (parse_saml_metadata NS cfg U clock source key base_url fail_on_error
          filter_invalid validate validation_errors) = Inl ex"
  by (auto simp: parse_saml_metadata_def Let_def split: prod.splits sum.splits)

lemma parse_saml_metadata_swallows:
  "\<not> fail_on_error \<Longrightarrow>
   fst (parse_saml_metadata NS cfg U clock source key base_url fail_on_error
          filter_invalid validate validation_errors) = Inl ex \<Longrightarrow>
   \<not> is_Exception ex"
  by (auto simp: parse_saml_metadata_def Let_def split: prod.splits sum.splits if_splits)

lemma try_body_parse:
  "parse_xml U source base_url = Inl ex \<Longrightarrow>
   try_body NS cfg U clock source key base_url filter_invalid validate errs = (Inl ex, errs)"
  by (simp add: try_body_def)

lemma try_body_signature:
  "parse_xml U source base_url = Inr t0 \<Longrightarrow> xinclude U t0 = Inr t1 \<Longrightarrow>
   metadata_expiration NS cfg (iso2datetime U) (duration2timedelta U) clock t1 = Inr x \<Longrightarrow>
   check_signature U t1 key = Inl ex \<Longrightarrow>
   try_body NS cfg U clock source key base_url filter_invalid validate errs = (Inl ex, errs)"
  by (simp add: try_body_def)

lemma try_body_schema:
  "parse_xml U source base_url = Inr t0 \<Longrightarrow> xinclude U t0 = Inr t1 \<Longrightarrow>
   metadata_expiration NS cfg (iso2datetime U) (duration2timedelta U) clock t1 = Inr x \<Longrightarrow>
   check_signature U t1 key = Inr t2 \<Longrightarrow> \<not> validate_document U (strip_ID NS t2) \<Longrightarrow>
   try_body NS cfg U clock source key base_url False True errs
     = (Inl (MetadataException
               (''schema validation failed: '' @ xml_error U (strip_ID NS t2))), errs)"
  by (simp add: try_body_def)





end
